theory Spec2Isabelle
  imports Main "HOL-Library.Word"
begin

unbundle bit_operations_syntax

section \<open>The WAForth shell: data model\<close>

text \<open>
  The development embeds the class \<open>WAForth\<close> (the JavaScript shell around the
  WebAssembly core) of the repository. A JavaScript string is a sequence of UTF-16 code
  units, a \<open>Uint8Array\<close> and the linear memory are sequences of bytes, and the numbers
  that cross the boundary to the core are integers (the width of the core's cells is not
  modelled).
\<close>

type_synonym byte = "8 word"
type_synonym code_unit = "16 word"
type_synonym jsstring = "code_unit list"

text \<open>\<open>js ''abc''\<close> writes the JavaScript string literal \<open>"abc"\<close>.\<close>

definition js :: "string \<Rightarrow> jsstring" where
  "js cs = map (\<lambda>c. of_nat (of_char c)) cs"

datatype js_error = RangeError | TypeError | CompileError | LinkError | RuntimeError

text \<open>
  A call either returns a value or throws. Side effects made before a \<open>throw\<close> stay, so
  every operation returns its completion together with the state it leaves.
\<close>

datatype 'a completion = Return 'a | Throw js_error

datatype log_entry = Console_error_exception js_error | Console_error_unbound jsstring

type_synonym funcref = nat

text \<open>
  The \<open>WebAssembly.Table\<close> exported by the core. Its length changes only through
  \<open>grow\<close>; instantiating a module can only set elements. \<open>tmaximum\<close> is the largest
  length the table can be grown to: the maximum it was declared with or, without one, the
  limit of the engine. The declaration is in the core and not among the sources, so the
  value is a parameter.
\<close>

record wtable =
  tlength :: nat
  tmaximum :: nat
  telems :: "nat \<Rightarrow> funcref option"

text \<open>
  Modelled from the spec: the core (\<open>waforth.wat\<close>, not among the sources) is an opaque
  unit exposing \<open>interpret\<close>, \<open>push\<close>, \<open>pop\<close> and \<open>here\<close>. Its operand stack is a stack
  of integers (\<open>stack\<close>, top first) and \<open>here\<close> is its dictionary high-water mark. The
  record is the state of a shell whose \<open>load()\<close> has resolved, so that \<open>core\<close>,
  \<open>#buffer\<close>, \<open>table\<close> and \<open>memory\<close> are all defined; \<open>console\<close> collects what the shell
  writes with \<open>console.error\<close>. \<open>max_args\<close> is the number of arguments that the engine
  accepts in one function call; it is a property of the engine, kept in the record so that
  every operation can read it.
\<close>

record vm =
  stack :: "int list"
  here :: int
  memory :: "byte list"
  table :: wtable
  buffer :: "byte list"
  console :: "log_entry list"
  max_args :: nat

section \<open>Host functions\<close>

text \<open>
  \<open>new Uint8Array(buffer, byteOffset, length)\<close>: a view of \<open>length\<close> bytes at
  \<open>byteOffset\<close>; a \<open>RangeError\<close> when the range is not inside the buffer.
\<close>

definition Uint8Array :: "byte list \<Rightarrow> int \<Rightarrow> int \<Rightarrow> js_error + byte list" where
  "Uint8Array buf byteOffset len =
     (if byteOffset < 0 \<or> len < 0 \<or> int (length buf) < byteOffset + len
      then Inl RangeError
      else Inr (take (nat len) (drop (nat byteOffset) buf)))"

text \<open>
  The bytes \<open>offset, ..., offset + len - 1\<close> lie inside the buffer: the calls on which
  \<open>new Uint8Array(buffer, offset, len)\<close> does not throw.
\<close>

definition in_memory :: "byte list \<Rightarrow> int \<Rightarrow> int \<Rightarrow> bool" where
  "in_memory buf byteOffset len =
     (0 \<le> byteOffset \<and> 0 \<le> len \<and> byteOffset + len \<le> int (length buf))"

text \<open>
  \<open>new TextEncoder().encode(s)\<close>: the UTF-8 encoding of \<open>s\<close>. The string is first read
  as a sequence of code points, a surrogate pair giving one code point and a lone
  surrogate giving U+FFFD.
\<close>

definition is_lead :: "code_unit \<Rightarrow> bool" where
  "is_lead c = (0xD800 \<le> unat c \<and> unat c < 0xDC00)"

definition is_trail :: "code_unit \<Rightarrow> bool" where
  "is_trail c = (0xDC00 \<le> unat c \<and> unat c < 0xE000)"

definition scalar :: "code_unit \<Rightarrow> nat" where
  "scalar c = (if is_lead c \<or> is_trail c then 0xFFFD else unat c)"

fun code_points :: "jsstring \<Rightarrow> nat list" where
  "code_points [] = []"
| "code_points [c] = [scalar c]"
| "code_points (c # d # cs) =
     (if is_lead c \<and> is_trail d
      then (0x10000 + (unat c - 0xD800) * 0x400 + (unat d - 0xDC00)) # code_points cs
      else scalar c # code_points (d # cs))"

definition utf8 :: "nat \<Rightarrow> byte list" where
  "utf8 n =
     (if n < 0x80 then [of_nat n]
      else if n < 0x800 then [of_nat (0xC0 + n div 0x40), of_nat (0x80 + n mod 0x40)]
      else if n < 0x10000 then
        [of_nat (0xE0 + n div 0x1000), of_nat (0x80 + n div 0x40 mod 0x40),
         of_nat (0x80 + n mod 0x40)]
      else
        [of_nat (0xF0 + n div 0x40000), of_nat (0x80 + n div 0x1000 mod 0x40),
         of_nat (0x80 + n div 0x40 mod 0x40), of_nat (0x80 + n mod 0x40)])"

definition TextEncoder_encode :: "jsstring \<Rightarrow> byte list" where
  "TextEncoder_encode s = concat (map utf8 (code_points s))"

section \<open>Input buffer\<close>

text \<open>
  \<open>#buffer\<close> is a JavaScript array: \<open>push\<close> appends at the end and \<open>pop\<close> removes the
  last element.
\<close>

text \<open>
  \<open>getc\<close>: \<open>-1\<close> when the buffer is empty, otherwise \<open>buffer.pop()\<close>.
\<close>

definition getc :: "vm \<Rightarrow> int \<times> vm" where
  "getc w =
     (if length (buffer w) = 0 then (-1, w)
      else (uint (last (buffer w)), w\<lparr>buffer := butlast (buffer w)\<rparr>))"

text \<open>
  \<open>read(s)\<close>: the loop \<open>for (let i = data.length - 1; i >= 0; --i)\<close>; \<open>read_loop data n b\<close>
  is the buffer after the iterations \<open>i = n - 1, ..., 0\<close> starting from \<open>b\<close>.
\<close>

fun read_loop :: "byte list \<Rightarrow> nat \<Rightarrow> byte list \<Rightarrow> byte list" where
  "read_loop data 0 b = b"
| "read_loop data (Suc i) b = read_loop data i (b @ [data ! i])"

definition read :: "jsstring \<Rightarrow> vm \<Rightarrow> vm" where
  "read s w =
     (let data = TextEncoder_encode s
      in w\<lparr>buffer := read_loop data (length data) (buffer w)\<rparr>)"

text \<open>
  The core consuming its input: \<open>drain n w\<close> calls \<open>getc\<close> \<open>n\<close> times in a row and
  returns the values read, in the order read.
\<close>

fun drain :: "nat \<Rightarrow> vm \<Rightarrow> int list \<times> vm" where
  "drain 0 w = ([], w)"
| "drain (Suc n) w =
     (case getc w of (c, w1) \<Rightarrow> (case drain n w1 of (cs, w2) \<Rightarrow> (c # cs, w2)))"

section \<open>Marshalling layer\<close>

definition PAD_OFFSET :: int where
  "PAD_OFFSET = 400"

text \<open>
  Modelled from the spec: \<open>core.exports.push\<close> and \<open>core.exports.pop\<close> are the stack
  primitives of the core, which is not among the sources. Popping an empty stack is
  taken to trap.
\<close>

definition push :: "int \<Rightarrow> vm \<Rightarrow> vm" where
  "push n w = w\<lparr>stack := n # stack w\<rparr>"

definition pop :: "vm \<Rightarrow> int completion \<times> vm" where
  "pop w =
     (case stack w of
        [] \<Rightarrow> (Throw RuntimeError, w)
      | x # xs \<Rightarrow> (Return x, w\<lparr>stack := xs\<rparr>))"

text \<open>
  \<open>loadString\<close>: \<open>String.fromCharCode.apply(null, view)\<close> passes every byte of the view
  as one argument and throws a \<open>RangeError\<close> when they are more than the engine accepts
  (\<open>lim\<close>); otherwise every byte becomes one code unit.
\<close>

definition loadString :: "nat \<Rightarrow> byte list \<Rightarrow> int \<Rightarrow> int \<Rightarrow> js_error + jsstring" where
  "loadString lim mem addr len =
     (case Uint8Array mem addr len of
        Inl e \<Rightarrow> Inl e
      | Inr a \<Rightarrow> (if lim < length a then Inl RangeError else Inr (map ucast a)))"

text \<open>
  \<open>saveString\<close>: the view \<open>a\<close> aliases the memory, and \<open>a[i] = s.charCodeAt(i)\<close> stores
  the code unit modulo 256. The result is the memory after the loop.
\<close>

definition saveString :: "jsstring \<Rightarrow> byte list \<Rightarrow> int \<Rightarrow> js_error + byte list" where
  "saveString s mem addr =
     (let len = length s
      in case Uint8Array mem addr (int len) of
           Inl e \<Rightarrow> Inl e
         | Inr a \<Rightarrow> Inr (foldl (\<lambda>m i. m[nat addr + i := ucast (s ! i)]) mem [0..<len]))"

text \<open>
  The closed form of the loop of \<open>saveString\<close>: the memory in which the bytes at
  \<open>addr, ..., addr + s.length - 1\<close> are the code units of \<open>s\<close> modulo 256.
\<close>

definition stored :: "jsstring \<Rightarrow> byte list \<Rightarrow> int \<Rightarrow> byte list" where
  "stored s mem addr = take (nat addr) mem @ map ucast s @ drop (nat addr + length s) mem"

definition popString :: "vm \<Rightarrow> jsstring completion \<times> vm" where
  "popString w =
     (case pop w of
        (Throw e, w1) \<Rightarrow> (Throw e, w1)
      | (Return len, w1) \<Rightarrow>
          (case pop w1 of
             (Throw e, w2) \<Rightarrow> (Throw e, w2)
           | (Return addr, w2) \<Rightarrow>
               (case loadString (max_args w2) (memory w2) addr len of
                  Inl e \<Rightarrow> (Throw e, w2)
                | Inr s \<Rightarrow> (Return s, w2))))"

text \<open>\<open>pushString(s, offset = 0)\<close>; the body does not use \<open>offset\<close>.\<close>

definition pushString :: "jsstring \<Rightarrow> int \<Rightarrow> vm \<Rightarrow> int completion \<times> vm" where
  "pushString s offset w =
     (let addr = here w + PAD_OFFSET
      in case saveString s (memory w) addr of
           Inl e \<Rightarrow> (Throw e, w)
         | Inr mem \<Rightarrow>
             (Return (addr + PAD_OFFSET),
              push (int (length s)) (push addr (w\<lparr>memory := mem\<rparr>))))"

section \<open>Dynamic module loader\<close>

text \<open>
  The host: whether the browser is Safari, and the two WebAssembly constructors.
  \<open>new WebAssembly.Module(data)\<close> compiles or throws; \<open>new WebAssembly.Instance(module,
  {env: {table, memory}})\<close> may set elements of the shared table and write the shared
  memory, and may throw after having done so.
\<close>

record 'm host =
  isSafari :: bool
  WebAssembly_Module :: "byte list \<Rightarrow> js_error + 'm"
  WebAssembly_Instance ::
    "'m \<Rightarrow> wtable \<Rightarrow> byte list \<Rightarrow> js_error option \<times> (nat \<Rightarrow> funcref option) \<times> byte list"

text \<open>
  \<open>table.grow(delta)\<close>: \<open>delta\<close> new empty slots at the end, or a \<open>RangeError\<close> and no
  change when the table would become longer than it can be.
\<close>

definition Table_grow :: "wtable \<Rightarrow> nat \<Rightarrow> js_error + wtable" where
  "Table_grow t delta =
     (if tmaximum t < tlength t + delta then Inl RangeError
      else Inr (t\<lparr>tlength := tlength t + delta\<rparr>))"

text \<open>The Safari workaround: \<open>dataCopy.push(data[i])\<close> for \<open>i = 0, ..., length - 1\<close>.\<close>

definition dataCopy :: "byte list \<Rightarrow> nat \<Rightarrow> byte list" where
  "dataCopy data len = foldl (\<lambda>acc i. acc @ [data ! i]) [] [0..<len]"

text \<open>
  The import \<open>shell.load\<close>. The view is made and the table is grown before the \<open>try\<close>
  block, so an error thrown there is not logged.
\<close>

definition shell_load :: "'m host \<Rightarrow> int \<Rightarrow> int \<Rightarrow> int \<Rightarrow> vm \<Rightarrow> unit completion \<times> vm" where
  "shell_load h offset len index w =
     (case Uint8Array (memory w) offset len of
        Inl e \<Rightarrow> (Throw e, w)
      | Inr view \<Rightarrow>
          (let data = (if isSafari h then dataCopy view (nat len) else view)
           in case (if index \<ge> int (tlength (table w))
                    then Table_grow (table w) (tlength (table w))
                    else Inr (table w)) of
                Inl e \<Rightarrow> (Throw e, w)
              | Inr t1 \<Rightarrow>
                  (let w1 = w\<lparr>table := t1\<rparr>
                   in case WebAssembly_Module h data of
                        Inl e \<Rightarrow>
                          (Throw e, w1\<lparr>console := console w1 @ [Console_error_exception e]\<rparr>)
                      | Inr m \<Rightarrow>
                          (case WebAssembly_Instance h m (table w1) (memory w1) of
                             (Some e, els, mem) \<Rightarrow>
                               (Throw e,
                                w1\<lparr>table := (table w1)\<lparr>telems := els\<rparr>, memory := mem,
                                   console := console w1 @ [Console_error_exception e]\<rparr>)
                           | (None, els, mem) \<Rightarrow>
                               (Return (),
                                w1\<lparr>table := (table w1)\<lparr>telems := els\<rparr>,
                                   memory := mem\<rparr>)))))"

text \<open>
  A sequence of \<open>load\<close> calls, each given as \<open>(offset, length, index)\<close>. A call that
  throws aborts the running \<open>interpret\<close>, and the state it leaves is the state the next
  call finds.
\<close>

fun load_seq :: "'m host \<Rightarrow> (int \<times> int \<times> int) list \<Rightarrow> vm \<Rightarrow> vm" where
  "load_seq h [] w = w"
| "load_seq h ((offset, len, index) # cs) w = load_seq h cs (snd (shell_load h offset len index w))"

section \<open>Foreign call dispatcher\<close>

type_synonym handler = "vm \<Rightarrow> unit completion \<times> vm"

text \<open>
  \<open>#fns\<close> is created as \<open>{}\<close>, an ordinary object, so the property read
  \<open>this.#fns[fname]\<close> finds the handlers stored by \<open>bind\<close> and, for any other name, what
  the object inherits from \<open>Object.prototype\<close>. \<open>Object_prototype name\<close> is what the call
  \<open>fn(this)\<close> does with the inherited value: \<open>constructor\<close> and \<open>toString\<close> return
  without effect; the other inherited functions convert their undefined receiver to an
  object and throw a \<open>TypeError\<close>; the value of \<open>__proto__\<close> is an object that is not
  callable, a \<open>TypeError\<close> as well.
\<close>

definition Object_prototype :: "jsstring \<Rightarrow> handler option" where
  "Object_prototype name =
     (if name \<in> set (map js [''constructor'', ''toString''])
      then Some (\<lambda>w. (Return (), w))
      else if name \<in> set (map js
        [''__defineGetter__'', ''__defineSetter__'', ''hasOwnProperty'',
         ''__lookupGetter__'', ''__lookupSetter__'', ''isPrototypeOf'',
         ''propertyIsEnumerable'', ''valueOf'', ''toLocaleString'', ''__proto__''])
      then Some (\<lambda>w. (Throw TypeError, w))
      else None)"

definition fns_get :: "(jsstring \<rightharpoonup> handler) \<Rightarrow> jsstring \<Rightarrow> handler option" where
  "fns_get fns name =
     (case fns name of
        Some fn \<Rightarrow> Some fn
      | None \<Rightarrow> Object_prototype name)"

text \<open>The import \<open>shell.call\<close>; \<open>fns\<close> holds the handlers stored in \<open>#fns\<close>.\<close>

definition call :: "(jsstring \<rightharpoonup> handler) \<Rightarrow> vm \<Rightarrow> unit completion \<times> vm" where
  "call fns w =
     (case pop w of
        (Throw e, w1) \<Rightarrow> (Throw e, w1)
      | (Return len, w1) \<Rightarrow>
          (case pop w1 of
             (Throw e, w2) \<Rightarrow> (Throw e, w2)
           | (Return addr, w2) \<Rightarrow>
               (case loadString (max_args w2) (memory w2) addr len of
                  Inl e \<Rightarrow> (Throw e, w2)
                | Inr fname \<Rightarrow>
                    (case fns_get fns fname of
                       None \<Rightarrow>
                         (Return (), w2\<lparr>console := console w2 @ [Console_error_unbound fname]\<rparr>)
                     | Some fn \<Rightarrow> fn w2))))"

section \<open>Interpreting\<close>

text \<open>
  Modelled from the spec: \<open>core.exports.interpret\<close> runs the core, which is not among the
  sources, on the current state; it returns a number or throws (QUIT, ABORT or an error),
  and what it did until then stays. It is a parameter of the model.
\<close>

type_synonym core_interpret = "vm \<Rightarrow> int completion \<times> vm"

text \<open>
  The method \<open>interpret(s)\<close> returns what the core returns, or \<open>undefined\<close> (\<open>None\<close>) after the
  \<open>catch\<close>.
\<close>

definition WAForth_interpret :: "core_interpret \<Rightarrow> jsstring \<Rightarrow> vm \<Rightarrow> int option completion \<times> vm" where
  "WAForth_interpret ci s w =
     (case ci (read s w) of
        (Return v, w1) \<Rightarrow> (Return (Some v), w1)
      | (Throw e, w1) \<Rightarrow> (Return None, w1))"

text \<open>
  The function that \<open>bindAsync(name, fn)\<close> stores under \<open>name\<close>. The asynchronous
  operation \<open>fn\<close> is a parameter: given the state after the token was popped, it yields
  how its promise settles (\<open>None\<close> fulfilled, \<open>Some e\<close> rejected with \<open>e\<close>) and the state
  at that moment. The completion of the wrapper is the settlement of the promise it
  returns.
\<close>

definition bindAsync_handler ::
  "core_interpret \<Rightarrow> (vm \<Rightarrow> js_error option \<times> vm) \<Rightarrow> vm \<Rightarrow> unit completion \<times> vm" where
  "bindAsync_handler ci fn w =
     (case pop w of
        (Throw e, w1) \<Rightarrow> (Throw e, w1)
      | (Return cbxt, w1) \<Rightarrow>
          (let w3 = (case fn w1 of
                       (None, w2) \<Rightarrow> push (- 1) w2
                     | (Some e, w2) \<Rightarrow>
                         push 0 (w2\<lparr>console := console w2 @ [Console_error_exception e]\<rparr>));
               w4 = push cbxt w3
           in case WAForth_interpret ci (js ''EXECUTE'') w4 of
                (r, w5) \<Rightarrow> (Return (), w5)))"

section \<open>Sample state and host\<close>

text \<open>
  A small initialised shell, used to run the definitions on concrete inputs: an empty
  stack, the high-water mark at 1000, 2000 bytes of memory of which the first ten hold
  their own address and the others 0, a table of length 4 that can grow to 16, and an
  engine that accepts 65535 arguments.
\<close>

definition vm0 :: vm where
  "vm0 = \<lparr>stack = [], here = 1000, memory = [0, 1, 2, 3, 4, 5, 6, 7, 8, 9] @ replicate 1990 0,
          table = \<lparr>tlength = 4, tmaximum = 16, telems = (\<lambda>i. None)\<rparr>, buffer = [],
          console = [], max_args = 65535\<rparr>"

text \<open>
  A host whose modules are their bytes: the empty module does not compile, and
  instantiating a module registers a function at the index given by its first byte, or
  fails to link when the table is too short.
\<close>

definition toy_host :: "byte list host" where
  "toy_host = \<lparr>isSafari = False,
     WebAssembly_Module = (\<lambda>d. if d = [] then Inl CompileError else Inr d),
     WebAssembly_Instance = (\<lambda>m t mem.
        if unat (hd m) < tlength t then (None, (telems t)(unat (hd m) \<mapsto> 1), mem)
        else (Some LinkError, telems t, mem))\<rparr>"

section \<open>Input buffer: properties\<close>

lemma read_loop_rev: "n \<le> length data \<Longrightarrow> read_loop data n b = b @ rev (take n data)"
proof (induction n arbitrary: b)
  case 0
  then show ?case by simp
next
  case (Suc n)
  then show ?case by (simp add: take_Suc_conv_app_nth)
qed

lemma read_eq: "read s w = w\<lparr>buffer := buffer w @ rev (TextEncoder_encode s)\<rparr>"
  by (simp add: read_def Let_def read_loop_rev)

lemma drain_rev:
  "buffer w = b @ rev xs \<Longrightarrow> drain (length xs) w = (map uint xs, w\<lparr>buffer := b\<rparr>)"
proof (induction xs arbitrary: w)
  case Nil
  then show ?case by simp
next
  case (Cons x xs)
  have g: "getc w = (uint x, w\<lparr>buffer := b @ rev xs\<rparr>)"
    using Cons.prems by (simp add: getc_def butlast_append)
  have "drain (length xs) (w\<lparr>buffer := b @ rev xs\<rparr>) = (map uint xs, w\<lparr>buffer := b\<rparr>)"
    using Cons.IH [of "w\<lparr>buffer := b @ rev xs\<rparr>"] by simp
  with g show ?case by simp
qed

lemma encode_AB: "TextEncoder_encode (js ''AB'') = [0x41, 0x42]"
  by (simp add: TextEncoder_encode_def js_def utf8_def scalar_def is_lead_def is_trail_def)

text \<open>
  Claim C5. \<open>read("AB")\<close> on an empty input buffer, followed by three calls of \<open>getc\<close>,
  yields \<open>'A'\<close>, then \<open>'B'\<close>, then the end-of-input value \<open>-1\<close>. In general \<open>read(s)\<close>
  appends the encoded bytes of \<open>s\<close> in reverse order, so that as many calls of \<open>getc\<close>
  as there are bytes yield them in forward order and leave the buffer as it was before
  the \<open>read\<close>; \<open>getc\<close> on an empty buffer yields \<open>-1\<close> and changes nothing.
\<close>

theorem read_drain_forward:
  "fst (drain 3 (read (js ''AB'') (w\<lparr>buffer := []\<rparr>)))
     = [int (of_char CHR ''A''), int (of_char CHR ''B''), - 1]
   \<and> buffer (read s w) = buffer w @ rev (TextEncoder_encode s)
   \<and> drain (length (TextEncoder_encode s)) (read s w) = (map uint (TextEncoder_encode s), w)
   \<and> getc (w\<lparr>buffer := []\<rparr>) = (- 1, w\<lparr>buffer := []\<rparr>)"
proof -
  have a: "buffer (read (js ''AB'') (w\<lparr>buffer := []\<rparr>)) = [0x42, 0x41]"
    by (simp add: read_eq encode_AB)
  have b: "fst (drain 3 (read (js ''AB'') (w\<lparr>buffer := []\<rparr>))) = [0x41, 0x42, - 1]"
    by (simp add: numeral_3_eq_3 getc_def a)
  have c: "drain (length (TextEncoder_encode s)) (read s w)
             = (map uint (TextEncoder_encode s), w)"
    using drain_rev [of "read s w" "buffer w" "TextEncoder_encode s"] by (simp add: read_eq)
  show ?thesis using b c by (simp add: read_eq getc_def)
qed

text \<open>
  Claim C10. After \<open>read(s1)\<close> and then \<open>read(s2)\<close> with no \<open>getc\<close> in between, the
  calls of \<open>getc\<close> yield the bytes of \<open>s2\<close> in forward order and after them the bytes of
  \<open>s1\<close> in forward order: the fragment queued last is consumed first.
\<close>

theorem read_twice_drain:
  "drain (length (TextEncoder_encode s2) + length (TextEncoder_encode s1)) (read s2 (read s1 w))
     = (map uint (TextEncoder_encode s2) @ map uint (TextEncoder_encode s1), w)"
proof -
  have "buffer (read s2 (read s1 w))
          = buffer w @ rev (TextEncoder_encode s2 @ TextEncoder_encode s1)"
    by (simp add: read_eq)
  from drain_rev [OF this] show ?thesis by (simp add: read_eq)
qed

section \<open>Loader: properties\<close>

lemma Uint8Array_in_memory:
  "Uint8Array buf byteOffset len =
     (if in_memory buf byteOffset len
      then Inr (take (nat len) (drop (nat byteOffset) buf)) else Inl RangeError)"
  by (auto simp: Uint8Array_def in_memory_def)

text \<open>The Safari copy holds the bytes of the view.\<close>

lemma dataCopy_take: "n \<le> length data \<Longrightarrow> dataCopy data n = take n data"
  by (induction n) (simp_all add: dataCopy_def take_Suc_conv_app_nth)

lemma length_Uint8Array:
  "Uint8Array buf byteOffset len = Inr view \<Longrightarrow> length view = nat len"
  by (auto simp: Uint8Array_def split: if_splits)

lemma dataCopy_view:
  "Uint8Array buf byteOffset len = Inr view \<Longrightarrow> dataCopy view (nat len) = view"
  by (simp add: dataCopy_take length_Uint8Array)

text \<open>A call that does not get to the \<open>try\<close> block changes nothing.\<close>

lemma shell_load_outside:
  "\<not> in_memory (memory w) offset len \<Longrightarrow>
   shell_load h offset len index w = (Throw RangeError, w)"
  by (simp add: shell_load_def Uint8Array_in_memory)

lemma shell_load_full:
  "int (tlength (table w)) \<le> index \<Longrightarrow> tmaximum (table w) < 2 * tlength (table w) \<Longrightarrow>
   shell_load h offset len index w = (Throw RangeError, w)"
  by (simp add: shell_load_def Uint8Array_in_memory Table_grow_def Let_def)

text \<open>A call that gets to the \<open>try\<close> block, by what the two constructors do.\<close>

lemma shell_load_try:
  assumes "Uint8Array (memory w) offset len = Inr view"
    and "index < int (tlength (table w)) \<or> 2 * tlength (table w) \<le> tmaximum (table w)"
    and "n = (if index < int (tlength (table w)) then tlength (table w)
              else 2 * tlength (table w))"
  shows "shell_load h offset len index w =
     (case WebAssembly_Module h view of
        Inl e \<Rightarrow>
          (Throw e,
           w\<lparr>table := (table w)\<lparr>tlength := n\<rparr>,
             console := console w @ [Console_error_exception e]\<rparr>)
      | Inr m \<Rightarrow>
          (case WebAssembly_Instance h m ((table w)\<lparr>tlength := n\<rparr>) (memory w) of
             (Some e, els, mem) \<Rightarrow>
               (Throw e,
                w\<lparr>table := (table w)\<lparr>tlength := n, telems := els\<rparr>, memory := mem,
                  console := console w @ [Console_error_exception e]\<rparr>)
           | (None, els, mem) \<Rightarrow>
               (Return (),
                w\<lparr>table := (table w)\<lparr>tlength := n, telems := els\<rparr>, memory := mem\<rparr>)))"
proof -
  have d: "(if isSafari h then dataCopy view (nat len) else view) = view"
    using assms(1) by (simp add: dataCopy_view)
  show ?thesis
  proof (cases "index < int (tlength (table w))")
    case True
    then have n: "n = tlength (table w)" using assms(3) by simp
    from True show ?thesis
      by (simp add: shell_load_def assms(1) d n Let_def
          split: sum.splits prod.splits option.splits)
  next
    case False
    then have n: "n = 2 * tlength (table w)" using assms(3) by simp
    have g: "Table_grow (table w) (tlength (table w))
        = Inr ((table w)\<lparr>tlength := 2 * tlength (table w)\<rparr>)"
      using False assms(2) by (simp add: Table_grow_def)
    from False show ?thesis
      by (simp add: shell_load_def assms(1) d n g Let_def
          split: sum.splits prod.splits option.splits)
  qed
qed

lemma tlength_shell_load:
  "tlength (table (snd (shell_load h offset len index w))) =
     (if in_memory (memory w) offset len \<and> int (tlength (table w)) \<le> index
         \<and> 2 * tlength (table w) \<le> tmaximum (table w)
      then 2 * tlength (table w) else tlength (table w))"
proof (cases "in_memory (memory w) offset len")
  case False
  then show ?thesis by (simp add: shell_load_outside)
next
  case True
  then obtain view where v: "Uint8Array (memory w) offset len = Inr view"
    by (simp add: Uint8Array_in_memory)
  show ?thesis
  proof (cases "index < int (tlength (table w)) \<or> 2 * tlength (table w) \<le> tmaximum (table w)")
    case False
    then show ?thesis by (simp add: shell_load_full)
  next
    case g: True
    show ?thesis
      using True g
      by (auto simp: shell_load_try [OF v g refl]
          split: sum.splits prod.splits option.splits)
  qed
qed

lemma tmaximum_shell_load:
  "tmaximum (table (snd (shell_load h offset len index w))) = tmaximum (table w)"
proof (cases "in_memory (memory w) offset len")
  case False
  then show ?thesis by (simp add: shell_load_outside)
next
  case True
  then obtain view where v: "Uint8Array (memory w) offset len = Inr view"
    by (simp add: Uint8Array_in_memory)
  show ?thesis
  proof (cases "index < int (tlength (table w)) \<or> 2 * tlength (table w) \<le> tmaximum (table w)")
    case False
    then show ?thesis by (simp add: shell_load_full)
  next
    case g: True
    show ?thesis
      by (simp add: shell_load_try [OF v g refl]
          split: sum.splits prod.splits option.splits)
  qed
qed

text \<open>What no call of \<open>load\<close> touches.\<close>

lemma shell_load_frame:
  "stack (snd (shell_load h offset len index w)) = stack w
   \<and> here (snd (shell_load h offset len index w)) = here w
   \<and> buffer (snd (shell_load h offset len index w)) = buffer w
   \<and> max_args (snd (shell_load h offset len index w)) = max_args w"
proof (cases "in_memory (memory w) offset len")
  case False
  then show ?thesis by (simp add: shell_load_outside)
next
  case True
  then obtain view where v: "Uint8Array (memory w) offset len = Inr view"
    by (simp add: Uint8Array_in_memory)
  show ?thesis
  proof (cases "index < int (tlength (table w)) \<or> 2 * tlength (table w) \<le> tmaximum (table w)")
    case False
    then show ?thesis by (simp add: shell_load_full)
  next
    case g: True
    show ?thesis
      by (simp add: shell_load_try [OF v g refl]
          split: sum.splits prod.splits option.splits)
  qed
qed

lemma tlength_shell_load_mono:
  "tlength (table w) \<le> tlength (table (snd (shell_load h offset len index w)))"
  by (simp add: tlength_shell_load)

lemma tlength_load_seq_mono: "tlength (table w) \<le> tlength (table (load_seq h cs w))"
proof (induction cs arbitrary: w)
  case Nil
  then show ?case by simp
next
  case (Cons c cs)
  obtain offset len index where c: "c = (offset, len, index)"
    by (cases c) auto
  have "tlength (table w) \<le> tlength (table (snd (shell_load h offset len index w)))"
    by (rule tlength_shell_load_mono)
  also have "\<dots> \<le> tlength (table (load_seq h cs (snd (shell_load h offset len index w))))"
    by (rule Cons.IH)
  finally show ?case by (simp add: c)
qed

lemma shell_load_isSafari:
  "shell_load (h\<lparr>isSafari := True\<rparr>) offset len index w
     = shell_load (h\<lparr>isSafari := False\<rparr>) offset len index w"
proof (cases "Uint8Array (memory w) offset len")
  case (Inl e)
  then show ?thesis by (simp add: shell_load_def)
next
  case (Inr view)
  then have "dataCopy view (nat len) = view"
    by (rule dataCopy_view)
  with Inr show ?thesis by (simp add: shell_load_def Let_def split: sum.splits)
qed

text \<open>
  Claim C8, amended. A call \<open>load(offset, length, index)\<close> with \<open>index\<close> below the
  table length leaves the length as it was. A call with \<open>index\<close> equal to the table length
  leaves the table exactly twice as long when its bytes lie inside the memory and twice
  the length is not more than the table can have; otherwise it throws a \<open>RangeError\<close> and
  changes nothing.
\<close>

theorem load_doubles_at_boundary:
  "(index < int (tlength (table w)) \<longrightarrow>
      tlength (table (snd (shell_load h offset len index w))) = tlength (table w))
   \<and> (index = int (tlength (table w)) \<and> in_memory (memory w) offset len
        \<and> 2 * tlength (table w) \<le> tmaximum (table w) \<longrightarrow>
      tlength (table (snd (shell_load h offset len index w))) = 2 * tlength (table w))
   \<and> (index = int (tlength (table w))
        \<and> \<not> (in_memory (memory w) offset len \<and> 2 * tlength (table w) \<le> tmaximum (table w)) \<longrightarrow>
      shell_load h offset len index w = (Throw RangeError, w))"
proof (intro conjI impI)
  assume "index < int (tlength (table w))"
  then show "tlength (table (snd (shell_load h offset len index w))) = tlength (table w)"
    by (simp add: tlength_shell_load)
next
  assume "index = int (tlength (table w)) \<and> in_memory (memory w) offset len
        \<and> 2 * tlength (table w) \<le> tmaximum (table w)"
  then show "tlength (table (snd (shell_load h offset len index w))) = 2 * tlength (table w)"
    by (simp add: tlength_shell_load)
next
  assume a: "index = int (tlength (table w))
        \<and> \<not> (in_memory (memory w) offset len \<and> 2 * tlength (table w) \<le> tmaximum (table w))"
  show "shell_load h offset len index w = (Throw RangeError, w)"
  proof (cases "in_memory (memory w) offset len")
    case False
    then show ?thesis by (rule shell_load_outside)
  next
    case True
    with a show ?thesis by (intro shell_load_full) simp_all
  qed
qed

theorem load_doubles_at_boundary_witness:
  "tlength (table vm0) = 4
   \<and> tlength (table (snd (shell_load toy_host 0 1 3 vm0))) = 4
   \<and> tlength (table (snd (shell_load toy_host 0 1 4 vm0))) = 8
   \<and> shell_load toy_host 2000 1 4 vm0 = (Throw RangeError, vm0)"
  using load_doubles_at_boundary [of 3 vm0 toy_host 0 1]
    load_doubles_at_boundary [of 4 vm0 toy_host 0 1]
    load_doubles_at_boundary [of 4 vm0 toy_host 2000 1]
  by (simp add: vm0_def in_memory_def)

text \<open>
  With a table of length 4, \<open>load(0, -1, 4)\<close> throws when the view is made, before the
  length is compared, and the table keeps the length 4.
\<close>

theorem load_doubles_at_boundary_counterexample:
  "tlength (table vm0) = 4
   \<and> fst (shell_load toy_host 0 (- 1) 4 vm0) = Throw RangeError
   \<and> tlength (table (snd (shell_load toy_host 0 (- 1) 4 vm0))) = 4"
  by (simp add: shell_load_outside in_memory_def vm0_def)

text \<open>
  Claim C1, amended. Over every sequence of \<open>load\<close> calls the table length never
  shrinks. After any such sequence, a further call \<open>load(offset, length, index)\<close> leaves
  a table longer than \<open>index\<close> exactly when \<open>index\<close> was below the table length already,
  or the bytes of the call lie inside the memory, \<open>index\<close> is below twice the table length
  and twice the table length is not more than the table can have: the table is doubled
  once, not until it is long enough.
\<close>

theorem load_table_growth:
  "tlength (table w) \<le> tlength (table (load_seq h cs w))
   \<and> (index < int (tlength (table (snd (shell_load h offset len index (load_seq h cs w)))))
        \<longleftrightarrow> index < int (tlength (table (load_seq h cs w)))
            \<or> in_memory (memory (load_seq h cs w)) offset len
              \<and> index < 2 * int (tlength (table (load_seq h cs w)))
              \<and> 2 * tlength (table (load_seq h cs w)) \<le> tmaximum (table (load_seq h cs w)))"
  by (auto simp add: tlength_load_seq_mono tlength_shell_load)

theorem load_table_growth_witness:
  "tlength (table vm0) \<le> tlength (table (load_seq toy_host [(0, 1, 4), (0, 1, 5)] vm0))
   \<and> tlength (table (load_seq toy_host [(0, 1, 4), (0, 1, 5)] vm0)) = 8
   \<and> (8::int) < int (tlength (table (snd (shell_load toy_host 0 1 8
         (load_seq toy_host [(0, 1, 4), (0, 1, 5)] vm0)))))
   \<and> \<not> (16::int) < int (tlength (table (snd (shell_load toy_host 0 1 16
         (load_seq toy_host [(0, 1, 4), (0, 1, 8)] vm0)))))"
  using load_table_growth [of vm0 toy_host "[(0, 1, 4), (0, 1, 5)]" 8 0 1]
    load_table_growth [of vm0 toy_host "[(0, 1, 4), (0, 1, 8)]" 16 0 1]
  by (simp add: shell_load_def Uint8Array_def Table_grow_def Let_def toy_host_def vm0_def
      in_memory_def)

text \<open>
  With a table of length 4 that can grow to 16, \<open>load(0, 1, 8)\<close> doubles the table to 8,
  which does not exceed the index 8.
\<close>

theorem load_single_doubling_counterexample:
  "tlength (table vm0) = 4
   \<and> \<not> (8 < int (tlength (table (snd (shell_load toy_host 0 1 8 vm0)))))"
  by (simp add: tlength_shell_load vm0_def in_memory_def)

text \<open>
  Claim C2, amended. A call \<open>load(offset, length, index)\<close> never touches the operand
  stack, the high-water mark or the input buffer (nor the limits of the engine). When its bytes do not lie inside the
  memory, or the table would have to become longer than it can be, it throws a
  \<open>RangeError\<close> and nothing has changed or been logged. Otherwise it leaves the table at
  the length it had when \<open>index\<close> was below it and at twice that length if not, also
  when it fails; it completes without logging, or logs the error and throws it again; a
  failed compile leaves the memory and the elements of the table as they were; and after
  an instantiation, failed or not, the memory and the elements are what the instantiation
  made of them.
\<close>

theorem load_failure_keeps_growth:
  assumes "shell_load h offset len index w = (c, w')"
  shows "stack w' = stack w \<and> here w' = here w \<and> buffer w' = buffer w
       \<and> max_args w' = max_args w \<and> tmaximum (table w') = tmaximum (table w)
       \<and> (\<not> in_memory (memory w) offset len
            \<or> int (tlength (table w)) \<le> index \<and> tmaximum (table w) < 2 * tlength (table w)
          \<longrightarrow> c = Throw RangeError \<and> w' = w)
       \<and> (in_memory (memory w) offset len
            \<and> (index < int (tlength (table w)) \<or> 2 * tlength (table w) \<le> tmaximum (table w))
          \<longrightarrow> tlength (table w')
                = (if index < int (tlength (table w)) then tlength (table w)
                   else 2 * tlength (table w))
              \<and> (c = Return () \<and> console w' = console w
                  \<or> (\<exists>e. c = Throw e \<and> console w' = console w @ [Console_error_exception e]))
              \<and> (\<forall>e. WebAssembly_Module h (take (nat len) (drop (nat offset) (memory w))) = Inl e
                    \<longrightarrow> c = Throw e \<and> memory w' = memory w
                        \<and> telems (table w') = telems (table w))
              \<and> (\<forall>m r els mem.
                    WebAssembly_Module h (take (nat len) (drop (nat offset) (memory w))) = Inr m
                    \<and> WebAssembly_Instance h m ((table w)\<lparr>tlength := tlength (table w')\<rparr>)
                          (memory w) = (r, els, mem)
                    \<longrightarrow> c = (case r of None \<Rightarrow> Return () | Some e \<Rightarrow> Throw e)
                        \<and> memory w' = mem \<and> telems (table w') = els))"
proof -
  have w': "w' = snd (shell_load h offset len index w)"
    and c: "c = fst (shell_load h offset len index w)"
    using assms by simp_all
  have frame: "stack w' = stack w \<and> here w' = here w \<and> buffer w' = buffer w
      \<and> max_args w' = max_args w \<and> tmaximum (table w') = tmaximum (table w)"
    using shell_load_frame [of h offset len index w] tmaximum_shell_load [of h offset len index w]
    by (simp add: w')
  have early: "\<not> in_memory (memory w) offset len
            \<or> int (tlength (table w)) \<le> index \<and> tmaximum (table w) < 2 * tlength (table w)
          \<longrightarrow> c = Throw RangeError \<and> w' = w"
    using assms by (auto simp: shell_load_outside shell_load_full)
  have late: "tlength (table w')
                = (if index < int (tlength (table w)) then tlength (table w)
                   else 2 * tlength (table w))
              \<and> (c = Return () \<and> console w' = console w
                  \<or> (\<exists>e. c = Throw e \<and> console w' = console w @ [Console_error_exception e]))
              \<and> (\<forall>e. WebAssembly_Module h (take (nat len) (drop (nat offset) (memory w))) = Inl e
                    \<longrightarrow> c = Throw e \<and> memory w' = memory w
                        \<and> telems (table w') = telems (table w))
              \<and> (\<forall>m r els mem.
                    WebAssembly_Module h (take (nat len) (drop (nat offset) (memory w))) = Inr m
                    \<and> WebAssembly_Instance h m ((table w)\<lparr>tlength := tlength (table w')\<rparr>)
                          (memory w) = (r, els, mem)
                    \<longrightarrow> c = (case r of None \<Rightarrow> Return () | Some e \<Rightarrow> Throw e)
                        \<and> memory w' = mem \<and> telems (table w') = els)"
    if m: "in_memory (memory w) offset len"
      and g: "index < int (tlength (table w)) \<or> 2 * tlength (table w) \<le> tmaximum (table w)"
  proof -
    let ?view = "take (nat len) (drop (nat offset) (memory w))"
    have v: "Uint8Array (memory w) offset len = Inr ?view"
      using m by (simp add: Uint8Array_in_memory)
    note eq = shell_load_try [OF v g refl, of h]
    show ?thesis
    proof (cases "WebAssembly_Module h ?view")
      case (Inl e)
      then show ?thesis using assms eq by auto
    next
      case (Inr md)
      obtain r els mem where i: "WebAssembly_Instance h md
          ((table w)\<lparr>tlength := (if index < int (tlength (table w)) then tlength (table w)
              else 2 * tlength (table w))\<rparr>) (memory w) = (r, els, mem)"
        by (metis prod_cases3)
      show ?thesis
      proof (cases r)
        case None
        with Inr i show ?thesis using assms eq by auto
      next
        case (Some e)
        with Inr i show ?thesis using assms eq by auto
      qed
    qed
  qed
  show ?thesis using frame early late by blast
qed

theorem load_failure_keeps_growth_witness:
  "shell_load toy_host 0 0 4 vm0
     = (Throw CompileError,
        vm0\<lparr>table := (table vm0)\<lparr>tlength := 8\<rparr>,
            console := [Console_error_exception CompileError]\<rparr>)
   \<and> fst (shell_load toy_host 9 1 4 vm0) = Throw LinkError
   \<and> console (snd (shell_load toy_host 9 1 4 vm0)) = [Console_error_exception LinkError]
   \<and> tlength (table (snd (shell_load toy_host 9 1 4 vm0))) = 8
   \<and> memory (snd (shell_load toy_host 9 1 4 vm0)) = memory vm0
   \<and> fst (shell_load toy_host 2 1 2 vm0) = Return ()
   \<and> telems (table (snd (shell_load toy_host 2 1 2 vm0))) 2 = Some 1
   \<and> shell_load toy_host 0 1 16 (vm0\<lparr>table := (table vm0)\<lparr>tlength := 16\<rparr>\<rparr>)
     = (Throw RangeError, vm0\<lparr>table := (table vm0)\<lparr>tlength := 16\<rparr>\<rparr>)"
  using load_failure_keeps_growth [OF surjective_pairing, of toy_host 0 0 4 vm0]
    load_failure_keeps_growth [OF surjective_pairing, of toy_host 9 1 4 vm0]
    load_failure_keeps_growth [OF surjective_pairing, of toy_host 2 1 2 vm0]
    load_failure_keeps_growth [OF surjective_pairing, of toy_host 0 1 16
      "vm0\<lparr>table := (table vm0)\<lparr>tlength := 16\<rparr>\<rparr>"]
  by (simp add: shell_load_def Uint8Array_def Table_grow_def Let_def toy_host_def vm0_def)

text \<open>
  With a table of length 4, \<open>load(0, 0, 4)\<close> of an empty module throws the compile
  error and leaves a table of length 8, not of the length 4 it had before the call.
\<close>

theorem load_failure_keeps_growth_counterexample:
  "tlength (table vm0) = 4
   \<and> fst (shell_load toy_host 0 0 4 vm0) = Throw CompileError
   \<and> tlength (table (snd (shell_load toy_host 0 0 4 vm0))) = 8"
  by (simp add: shell_load_def Uint8Array_def Table_grow_def Let_def vm0_def toy_host_def)

section \<open>Marshalling: properties\<close>

lemma ucast_byte_roundtrip:
  fixes c :: code_unit
  assumes "unat c < 256"
  shows "ucast (ucast c :: byte) = c"
proof -
  have "unat (ucast (ucast c :: byte) :: code_unit) = unat c"
    using assms by (simp add: unsigned_ucast_eq unsigned_take_bit_eq take_bit_nat_eq_self)
  then show ?thesis by (simp add: word_unat_eq_iff)
qed

lemma ucast_bytes_roundtrip:
  fixes s :: jsstring
  shows "\<forall>c \<in> set s. unat c < 256 \<Longrightarrow> map ucast (map ucast s :: byte list) = s"
  by (induction s) (simp_all add: ucast_byte_roundtrip)

lemma save_loop:
  "n \<le> length s \<Longrightarrow> a + n \<le> length mem \<Longrightarrow>
   foldl (\<lambda>m i. m[a + i := ucast (s ! i)]) mem [0..<n]
     = take a mem @ map ucast (take n s) @ drop (a + n) mem"
proof (induction n)
  case 0
  then show ?case by simp
next
  case (Suc n)
  have d: "drop (a + n) mem = mem ! (a + n) # drop (Suc (a + n)) mem"
    using Suc.prems by (simp add: Cons_nth_drop_Suc)
  show ?case
    using Suc by (simp add: take_Suc_conv_app_nth list_update_append d)
qed

lemma length_stored:
  "0 \<le> addr \<Longrightarrow> addr + int (length s) \<le> int (length mem) \<Longrightarrow>
   length (stored s mem addr) = length mem"
  by (auto simp: stored_def)

lemma saveString_ok:
  assumes "0 \<le> addr" and "addr + int (length s) \<le> int (length mem)"
  shows "saveString s mem addr = Inr (stored s mem addr)"
proof -
  have "nat addr + length s \<le> length mem" using assms by linarith
  then show ?thesis
    using assms by (simp add: saveString_def Uint8Array_def Let_def save_loop stored_def)
qed

lemma Uint8Array_stored:
  assumes "0 \<le> addr" and "addr + int (length s) \<le> int (length mem)"
  shows "Uint8Array (stored s mem addr) addr (int (length s)) = Inr (map ucast s)"
proof -
  have "nat addr + length s \<le> length mem" using assms by linarith
  then show ?thesis
    using assms by (simp add: Uint8Array_def stored_def)
qed

lemma pushString_ok:
  assumes "0 \<le> here w"
    and "here w + PAD_OFFSET + int (length s) \<le> int (length (memory w))"
  shows "pushString s offset w =
     (Return (here w + PAD_OFFSET + PAD_OFFSET),
      w\<lparr>memory := stored s (memory w) (here w + PAD_OFFSET),
        stack := int (length s) # (here w + PAD_OFFSET) # stack w\<rparr>)"
proof -
  have "0 \<le> here w + PAD_OFFSET" using assms by (simp add: PAD_OFFSET_def)
  then have "saveString s (memory w) (here w + PAD_OFFSET)
      = Inr (stored s (memory w) (here w + PAD_OFFSET))"
    using assms by (intro saveString_ok) simp_all
  then show ?thesis by (simp add: pushString_def Let_def push_def)
qed

text \<open>The view of the scratch area after a \<open>pushString\<close> call.\<close>

lemma view_after_pushString:
  assumes "0 \<le> here w"
    and "here w + PAD_OFFSET + int (length s) \<le> int (length (memory w))"
  shows "Uint8Array (memory (snd (pushString s offset w))) (here w + PAD_OFFSET)
           (int (length s)) = Inr (map ucast s)"
proof -
  have a: "0 \<le> here w + PAD_OFFSET" using assms by (simp add: PAD_OFFSET_def)
  have "Uint8Array (stored s (memory w) (here w + PAD_OFFSET)) (here w + PAD_OFFSET)
          (int (length s)) = Inr (map ucast s)"
    using a assms by (intro Uint8Array_stored) simp_all
  then show ?thesis
    by (simp add: pushString_ok [OF assms])
qed

text \<open>
  \<open>popString\<close> right after \<open>pushString\<close>: the string comes back with every code unit
  reduced modulo 256, unless it has more code units than the engine accepts as arguments.
\<close>

lemma popString_after_pushString:
  assumes "0 \<le> here w"
    and "here w + PAD_OFFSET + int (length s) \<le> int (length (memory w))"
  shows "popString (snd (pushString s offset w)) =
     (if max_args w < length s then Throw RangeError
      else Return (map ucast (map ucast s :: byte list)),
      w\<lparr>memory := stored s (memory w) (here w + PAD_OFFSET)\<rparr>)"
proof -
  have a: "0 \<le> here w + PAD_OFFSET" using assms by (simp add: PAD_OFFSET_def)
  have "Uint8Array (stored s (memory w) (here w + PAD_OFFSET)) (here w + PAD_OFFSET)
          (int (length s)) = Inr (map ucast s)"
    using a assms by (intro Uint8Array_stored) simp_all
  then show ?thesis
    by (simp add: pushString_ok [OF assms] popString_def pop_def loadString_def)
qed


text \<open>
  Claim C3, amended. For every string \<open>s\<close> whose code units are all below 256, whose
  bytes fit into the memory at \<open>here() + 400\<close> and which has no more code units than the
  engine accepts as arguments of one call, \<open>pushString(s)\<close> immediately followed by
  \<open>popString()\<close> returns exactly \<open>s\<close> and leaves the stack as it was.
\<close>

theorem pushString_popString_latin1:
  assumes "\<forall>c \<in> set s. unat c < 256"
    and "0 \<le> here w"
    and "here w + PAD_OFFSET + int (length s) \<le> int (length (memory w))"
    and "length s \<le> max_args w"
  shows "fst (popString (snd (pushString s offset w))) = Return s
       \<and> stack (snd (popString (snd (pushString s offset w)))) = stack w"
  using assms(1,4) ucast_bytes_roundtrip [of s]
  by (simp add: popString_after_pushString [OF assms(2,3)] del: map_map)

theorem pushString_popString_latin1_witness:
  "fst (popString (snd (pushString (js ''turtle'') 0 vm0))) = Return (js ''turtle'')
   \<and> stack (snd (popString (snd (pushString (js ''turtle'') 0 vm0)))) = []"
proof -
  have a: "\<forall>c \<in> set (js ''turtle''). unat c < 256" by (simp add: js_def)
  have b: "0 \<le> here vm0" by (simp add: vm0_def)
  have c: "here vm0 + PAD_OFFSET + int (length (js ''turtle'')) \<le> int (length (memory vm0))"
    by (simp add: vm0_def PAD_OFFSET_def js_def)
  have l: "length (js ''turtle'') \<le> max_args vm0" by (simp add: vm0_def js_def)
  have d: "stack vm0 = []" by (simp add: vm0_def)
  show ?thesis using pushString_popString_latin1 [OF a b c l, of 0] d by simp
qed

text \<open>
  The one-character string U+20AC fits into the memory, and \<open>pushString\<close> followed by
  \<open>popString\<close> returns the one-character string U+00AC instead.
\<close>

theorem pushString_popString_counterexample:
  "here vm0 + PAD_OFFSET + int (length [0x20AC :: code_unit]) \<le> int (length (memory vm0))
   \<and> fst (popString (snd (pushString [0x20AC] 0 vm0))) = Return [0xAC]
   \<and> fst (popString (snd (pushString [0x20AC] 0 vm0))) \<noteq> Return [0x20AC]"
proof -
  have b: "0 \<le> here vm0" by (simp add: vm0_def)
  have c: "here vm0 + PAD_OFFSET + int (length [0x20AC :: code_unit])
             \<le> int (length (memory vm0))"
    by (simp add: vm0_def PAD_OFFSET_def)
  have l: "\<not> max_args vm0 < length [0x20AC :: code_unit]" by (simp add: vm0_def)
  show ?thesis using c l by (simp add: popString_after_pushString [OF b c])
qed

text \<open>
  A string that fits into the memory and has more code units than the engine accepts as
  arguments is stored by \<open>pushString\<close>, and \<open>popString\<close> throws.
\<close>

lemma popString_too_long:
  assumes "0 \<le> here w"
    and "here w + PAD_OFFSET + int (length s) \<le> int (length (memory w))"
    and "max_args w < length s"
  shows "fst (popString (snd (pushString s offset w))) = Throw RangeError"
  using assms(3) by (simp add: popString_after_pushString [OF assms(1,2)])

lemma pushString_stack_here:
  assumes "0 \<le> here w"
    and "here w + PAD_OFFSET + int (length s) \<le> int (length (memory w))"
  shows "stack (snd (pushString s offset w)) = int (length s) # (here w + PAD_OFFSET) # stack w"
    and "here (snd (pushString s offset w)) = here w"
  by (simp_all add: pushString_ok [OF assms])

text \<open>A string that fitted before a \<open>pushString\<close> call still fits after it.\<close>

lemma pushString_again:
  assumes "0 \<le> here w"
    and "here w + PAD_OFFSET + int (length s1) \<le> int (length (memory w))"
    and "here w + PAD_OFFSET + int (length s2) \<le> int (length (memory w))"
  shows "0 \<le> here (snd (pushString s1 o1 w))"
    and "here (snd (pushString s1 o1 w)) + PAD_OFFSET + int (length s2)
           \<le> int (length (memory (snd (pushString s1 o1 w))))"
proof -
  have a: "0 \<le> here w + PAD_OFFSET" using assms(1) by (simp add: PAD_OFFSET_def)
  show "0 \<le> here (snd (pushString s1 o1 w))"
    using assms(1) by (simp add: pushString_ok [OF assms(1,2)])
  show "here (snd (pushString s1 o1 w)) + PAD_OFFSET + int (length s2)
           \<le> int (length (memory (snd (pushString s1 o1 w))))"
    using assms(3) a assms(2) by (simp add: pushString_ok [OF assms(1,2)] length_stored)
qed

text \<open>
  Claim C9, amended. Every \<open>pushString\<close> call computes its scratch address anew as
  \<open>here() + 400\<close> from the high-water mark of the moment, pushes that address, and
  leaves the mark as it is; nothing is kept from one call to the next. Two consecutive
  calls between which the mark has not moved therefore use the same address: the second
  string is written over the first, and the bytes at that address are those of the second
  string.
\<close>

theorem pushString_same_address:
  assumes "0 \<le> here w"
    and "here w + PAD_OFFSET + int (length s1) \<le> int (length (memory w))"
    and "here w + PAD_OFFSET + int (length s2) \<le> int (length (memory w))"
  shows "stack (snd (pushString s1 o1 w)) = int (length s1) # (here w + PAD_OFFSET) # stack w
       \<and> here (snd (pushString s1 o1 w)) = here w
       \<and> stack (snd (pushString s2 o2 (snd (pushString s1 o1 w))))
           = int (length s2) # (here w + PAD_OFFSET)
               # int (length s1) # (here w + PAD_OFFSET) # stack w
       \<and> Uint8Array (memory (snd (pushString s2 o2 (snd (pushString s1 o1 w)))))
            (here w + PAD_OFFSET) (int (length s2))
           = Inr (map ucast s2)"
proof -
  let ?w1 = "snd (pushString s1 o1 w)"
  note first = pushString_stack_here [OF assms(1,2), of o1]
  note fits = pushString_again [OF assms, of o1]
  have second: "stack (snd (pushString s2 o2 ?w1))
      = int (length s2) # (here w + PAD_OFFSET)
          # int (length s1) # (here w + PAD_OFFSET) # stack w"
    using pushString_stack_here(1) [OF fits, of o2] first by simp
  have overwritten: "Uint8Array (memory (snd (pushString s2 o2 ?w1))) (here w + PAD_OFFSET)
      (int (length s2)) = Inr (map ucast s2)"
    using view_after_pushString [OF fits, of o2] first by simp
  show ?thesis using first second overwritten by simp
qed

theorem pushString_same_address_witness:
  "stack (snd (pushString (js ''A'') 0 vm0)) = [1, 1400]
   \<and> stack (snd (pushString (js ''BC'') 0 (snd (pushString (js ''A'') 0 vm0))))
       = [2, 1400, 1, 1400]
   \<and> Uint8Array (memory (snd (pushString (js ''BC'') 0 (snd (pushString (js ''A'') 0 vm0)))))
        1400 2 = Inr [0x42, 0x43]"
proof -
  have a: "0 \<le> here vm0" by (simp add: vm0_def)
  have b: "here vm0 + PAD_OFFSET + int (length (js ''A'')) \<le> int (length (memory vm0))"
    by (simp add: vm0_def PAD_OFFSET_def js_def)
  have c: "here vm0 + PAD_OFFSET + int (length (js ''BC'')) \<le> int (length (memory vm0))"
    by (simp add: vm0_def PAD_OFFSET_def js_def)
  have d: "here vm0 + PAD_OFFSET = 1400" "stack vm0 = []"
    by (simp_all add: vm0_def PAD_OFFSET_def)
  show ?thesis
    using pushString_same_address [OF a b c, of 0 0] d by (simp add: js_def)
qed

text \<open>
  \<open>pushString("A")\<close> and then \<open>pushString("B")\<close>: both pairs on the stack carry the
  address 1400, and the byte at 1400, which held \<open>"A"\<close> after the first call, holds
  \<open>"B"\<close> after the second.
\<close>

theorem pushString_alias_counterexample:
  "stack (snd (pushString (js ''B'') 0 (snd (pushString (js ''A'') 0 vm0))))
     = [1, 1400, 1, 1400]
   \<and> Uint8Array (memory (snd (pushString (js ''A'') 0 vm0))) 1400 1 = Inr [0x41]
   \<and> Uint8Array (memory (snd (pushString (js ''B'') 0 (snd (pushString (js ''A'') 0 vm0)))))
        1400 1 = Inr [0x42]"
proof -
  let ?w1 = "snd (pushString (js ''A'') 0 vm0)"
  have a: "0 \<le> here vm0" by (simp add: vm0_def)
  have b: "here vm0 + PAD_OFFSET + int (length (js ''A'')) \<le> int (length (memory vm0))"
    by (simp add: vm0_def PAD_OFFSET_def js_def)
  have c: "here vm0 + PAD_OFFSET + int (length (js ''B'')) \<le> int (length (memory vm0))"
    by (simp add: vm0_def PAD_OFFSET_def js_def)
  have d: "here vm0 + PAD_OFFSET = 1400" "stack vm0 = []"
    by (simp_all add: vm0_def PAD_OFFSET_def)
  have s1: "stack ?w1 = [1, 1400]" "here ?w1 = here vm0"
    using pushString_stack_here [OF a b, of 0] d by (simp_all add: js_def)
  have f: "Uint8Array (memory ?w1) 1400 1 = Inr [0x41]"
    using view_after_pushString [OF a b, of 0] d by (simp add: js_def)
  note a1 = pushString_again [OF a b c, of 0]
  have s2: "stack (snd (pushString (js ''B'') 0 ?w1)) = [1, 1400, 1, 1400]"
    using pushString_stack_here(1) [OF a1, of 0] s1 d by (simp add: js_def)
  have g: "Uint8Array (memory (snd (pushString (js ''B'') 0 ?w1))) 1400 1 = Inr [0x42]"
    using view_after_pushString [OF a1, of 0] s1 d by (simp add: js_def)
  show ?thesis using f s2 g by simp
qed

section \<open>Interpreting and asynchronous handlers: properties\<close>

text \<open>
  Claim C7. For every source text \<open>s\<close> and every behaviour of the core,
  \<open>interpret(s)\<close> leaves the state that the core left and never throws: it returns what
  the core returned, or \<open>undefined\<close> when the core threw. In particular, when the core
  throws in the state \<open>w1\<close>, \<open>interpret\<close> returns normally in \<open>w1\<close>.
\<close>

theorem interpret_swallows_signal:
  "snd (WAForth_interpret ci s w) = snd (ci (read s w))
   \<and> fst (WAForth_interpret ci s w)
       = Return (case fst (ci (read s w)) of Return v \<Rightarrow> Some v | Throw e \<Rightarrow> None)
   \<and> (ci (read s w) = (Throw e, w1) \<longrightarrow> WAForth_interpret ci s w = (Return None, w1))"
  by (cases "ci (read s w)"; cases "fst (ci (read s w))") (auto simp: WAForth_interpret_def)

theorem interpret_swallows_signal_witness:
  "WAForth_interpret (\<lambda>w. (Throw RuntimeError, push 42 w)) (js ''X'') vm0
     = (Return None, vm0\<lparr>stack := [42], buffer := [0x58]\<rparr>)"
  using interpret_swallows_signal [of "\<lambda>w. (Throw RuntimeError, push 42 w)" "js ''X''" vm0
      RuntimeError "vm0\<lparr>stack := [42], buffer := [0x58]\<rparr>"]
  by (simp add: read_eq push_def vm0_def TextEncoder_encode_def js_def utf8_def scalar_def
      is_lead_def is_trail_def)


text \<open>
  Claim C4. The function stored by \<open>bindAsync(name, fn)\<close>, invoked with the
  continuation token \<open>cbxt\<close> on top of the stack, pops the token and runs \<open>fn\<close>. When
  \<open>fn\<close> succeeds it pushes \<open>-1\<close>; when \<open>fn\<close> fails with \<open>e\<close> it logs \<open>e\<close> and pushes
  \<open>0\<close>. In both cases it then pushes the token, queues \<open>EXECUTE\<close> and enters the core
  once, on a stack that holds the token exactly once, on top of the flag and of what
  \<open>fn\<close> left; no exception leaves the function.
\<close>

theorem bindAsync_resumes_once:
  assumes "stack w = cbxt # rest" and "fn (w\<lparr>stack := rest\<rparr>) = (r, w2)"
  shows "bindAsync_handler ci fn w =
     (Return (),
      snd (ci (read (js ''EXECUTE'')
        (w2\<lparr>console := console w2
               @ (case r of None \<Rightarrow> [] | Some e \<Rightarrow> [Console_error_exception e]),
            stack := cbxt # (if r = None then - 1 else 0) # stack w2\<rparr>))))"
proof -
  have p: "pop w = (Return cbxt, w\<lparr>stack := rest\<rparr>)"
    using assms(1) by (simp add: pop_def)
  have i: "\<And>v. (case WAForth_interpret ci (js ''EXECUTE'') v of (x, w5) \<Rightarrow> (Return (), w5))
      = (Return (), snd (ci (read (js ''EXECUTE'') v)))"
    by (simp add: WAForth_interpret_def split: prod.splits completion.splits)
  show ?thesis
  proof (cases r)
    case None
    then show ?thesis
      using assms(2) by (simp add: bindAsync_handler_def p i push_def Let_def)
  next
    case (Some e)
    then show ?thesis
      using assms(2) by (simp add: bindAsync_handler_def p i push_def Let_def)
  qed
qed

theorem bindAsync_resumes_once_witness:
  "bindAsync_handler (\<lambda>w. (Return 0, w)) (\<lambda>w. (Some RuntimeError, w)) (vm0\<lparr>stack := [77]\<rparr>)
     = (Return (),
        vm0\<lparr>console := [Console_error_exception RuntimeError], stack := [77, 0],
            buffer := rev (TextEncoder_encode (js ''EXECUTE''))\<rparr>)
   \<and> bindAsync_handler (\<lambda>w. (Return 0, w)) (\<lambda>w. (None, w)) (vm0\<lparr>stack := [77]\<rparr>)
     = (Return (),
        vm0\<lparr>stack := [77, - 1], buffer := rev (TextEncoder_encode (js ''EXECUTE''))\<rparr>)"
  using bindAsync_resumes_once [of "vm0\<lparr>stack := [77]\<rparr>" 77 "[]"
      "\<lambda>w. (Some RuntimeError, w)" "Some RuntimeError" "vm0\<lparr>stack := []\<rparr>"
      "\<lambda>w. (Return 0, w)"]
    bindAsync_resumes_once [of "vm0\<lparr>stack := [77]\<rparr>" 77 "[]"
      "\<lambda>w. (None, w)" "None" "vm0\<lparr>stack := []\<rparr>" "\<lambda>w. (Return 0, w)"]
  by (simp add: read_eq vm0_def)

section \<open>Dispatcher: properties\<close>

text \<open>
  When the property read \<open>this.#fns[fname]\<close> finds nothing, \<open>call\<close> pops the length and
  the address, logs the name, and does nothing else.
\<close>

lemma call_unbound:
  assumes "stack w = len # addr # rest"
    and "loadString (max_args w) (memory w) addr len = Inr fname"
    and "fns_get fns fname = None"
  shows "call fns w =
     (Return (), w\<lparr>stack := rest, console := console w @ [Console_error_unbound fname]\<rparr>)"
  using assms by (simp add: call_def pop_def)

text \<open>A call whose name was put on the stack by \<open>pushString\<close>.\<close>

lemma call_after_pushString:
  assumes "\<forall>c \<in> set s. unat c < 256"
    and "0 \<le> here w"
    and "here w + PAD_OFFSET + int (length s) \<le> int (length (memory w))"
    and "length s \<le> max_args w"
  shows "call fns (snd (pushString s offset w)) =
     (case fns_get fns s of
        None \<Rightarrow>
          (Return (),
           w\<lparr>memory := stored s (memory w) (here w + PAD_OFFSET),
             console := console w @ [Console_error_unbound s]\<rparr>)
      | Some fn \<Rightarrow> fn (w\<lparr>memory := stored s (memory w) (here w + PAD_OFFSET)\<rparr>))"
proof -
  have a: "0 \<le> here w + PAD_OFFSET" using assms by (simp add: PAD_OFFSET_def)
  have "Uint8Array (stored s (memory w) (here w + PAD_OFFSET)) (here w + PAD_OFFSET)
          (int (length s)) = Inr (map ucast s)"
    using a assms by (intro Uint8Array_stored) simp_all
  then have "loadString (max_args w) (stored s (memory w) (here w + PAD_OFFSET))
          (here w + PAD_OFFSET) (int (length s)) = Inr s"
    using ucast_bytes_roundtrip [OF assms(1)] assms(4)
    by (simp add: loadString_def del: map_map)
  then show ?thesis
    by (simp add: pushString_ok [OF assms(2,3)] call_def pop_def split: option.splits)
qed

lemma Object_prototype_missing: "Object_prototype (js ''missing'') = None"
  by (simp add: Object_prototype_def js_def)

lemma Object_prototype_proto:
  "Object_prototype (js ''__proto__'') = Some (\<lambda>w. (Throw TypeError, w))"
  by (simp add: Object_prototype_def js_def)

lemma Object_prototype_toString:
  "Object_prototype (js ''toString'') = Some (\<lambda>w. (Return (), w))"
  by (simp add: Object_prototype_def js_def)

lemma vm0_fits:
  "0 \<le> here vm0"
  "int (length s) \<le> 600 \<Longrightarrow> here vm0 + PAD_OFFSET + int (length s) \<le> int (length (memory vm0))"
  "int (length s) \<le> 600 \<Longrightarrow> length s \<le> max_args vm0"
  by (simp_all add: vm0_def PAD_OFFSET_def)

text \<open>With no handler bound, the name \<open>missing\<close> is logged and nothing else happens.\<close>

lemma call_missing:
  "call Map.empty (snd (pushString (js ''missing'') 0 vm0))
     = (Return (),
        vm0\<lparr>memory := stored (js ''missing'') (memory vm0) (here vm0 + PAD_OFFSET),
            console := console vm0 @ [Console_error_unbound (js ''missing'')]\<rparr>)"
proof -
  have l: "\<forall>c \<in> set (js ''missing''). unat c < 256" by (simp add: js_def)
  have f: "here vm0 + PAD_OFFSET + int (length (js ''missing'')) \<le> int (length (memory vm0))"
    by (rule vm0_fits) (simp add: js_def)
  have n: "length (js ''missing'') \<le> max_args vm0"
    by (rule vm0_fits) (simp add: js_def)
  show ?thesis
    by (simp add: call_after_pushString [OF l vm0_fits(1) f n] fns_get_def
        Object_prototype_missing)
qed

text \<open>
  Claim C6, on the code. With no handler bound at all, a call named \<open>__proto__\<close> throws
  a \<open>TypeError\<close>, and a call named \<open>toString\<close> returns without anything being logged:
  the property read finds what \<open>#fns\<close> inherits from \<open>Object.prototype\<close>, and \<open>call\<close>
  invokes it as if it were a bound handler.
\<close>

theorem call_inherited_name:
  "fst (call Map.empty (snd (pushString (js ''__proto__'') 0 vm0))) = Throw TypeError
   \<and> fst (call Map.empty (snd (pushString (js ''toString'') 0 vm0))) = Return ()
   \<and> console (snd (call Map.empty (snd (pushString (js ''toString'') 0 vm0)))) = console vm0"
proof -
  have l: "\<forall>c \<in> set (js ''__proto__''). unat c < 256" by (simp add: js_def)
  have f: "here vm0 + PAD_OFFSET + int (length (js ''__proto__'')) \<le> int (length (memory vm0))"
    by (rule vm0_fits) (simp add: js_def)
  have l': "\<forall>c \<in> set (js ''toString''). unat c < 256" by (simp add: js_def)
  have f': "here vm0 + PAD_OFFSET + int (length (js ''toString'')) \<le> int (length (memory vm0))"
    by (rule vm0_fits) (simp add: js_def)
  have n: "length (js ''__proto__'') \<le> max_args vm0"
    by (rule vm0_fits) (simp add: js_def)
  have n': "length (js ''toString'') \<le> max_args vm0"
    by (rule vm0_fits) (simp add: js_def)
  have p: "fst (call Map.empty (snd (pushString (js ''__proto__'') 0 vm0))) = Throw TypeError"
    by (simp add: call_after_pushString [OF l vm0_fits(1) f n] fns_get_def
        Object_prototype_proto)
  have q: "call Map.empty (snd (pushString (js ''toString'') 0 vm0))
      = (Return (),
         vm0\<lparr>memory := stored (js ''toString'') (memory vm0) (here vm0 + PAD_OFFSET)\<rparr>)"
    by (simp add: call_after_pushString [OF l' vm0_fits(1) f' n'] fns_get_def
        Object_prototype_toString)
  show ?thesis using p by (simp add: q)
qed


end
